theory Spec2Isabelle
  imports Complex_Main
begin

section \<open>The relational store of the EcoFinds backend\<close>

text \<open>
  The backend (server part of \<^verbatim>\<open>ecofinds-backend/seed-data.js\<close>) keeps its data in one
  SQLite connection \<^verbatim>\<open>db\<close>. The checkout routes read and write four tables. A row keeps
  the columns the routes read or write; the descriptive columns of a product are
  represented by \<open>p_title\<close>, timestamps are left out.
\<close>

datatype status = Available | Sold

record user =
  u_id :: nat
  username :: string

record product =
  p_id :: nat
  p_title :: string
  p_price :: rat
  p_user_id :: nat
  p_status :: status

record cart_row =
  c_user_id :: nat
  c_product_id :: nat

record purchase_row =
  pu_id :: nat
  pu_buyer_id :: nat
  pu_product_id :: nat
  pu_seller_id :: nat
  pu_price :: rat

text \<open>
  \<open>purchases_seq\<close> is the AUTOINCREMENT counter of the purchases table (the largest row id
  handed out so far); it is part of the database file and is rolled back with it.
\<close>

record tables =
  users :: "user list"
  products :: "product list"
  cart :: "cart_row list"
  purchases :: "purchase_row list"
  purchases_seq :: nat

text \<open>
  All requests share the one connection, so a transaction is a property of the connection:
  \<open>saved\<close> holds the tables as they were at \<^verbatim>\<open>BEGIN TRANSACTION\<close> while a transaction is
  open. Foreign keys are declared in the schema but never switched on
  (no \<^verbatim>\<open>PRAGMA foreign_keys\<close>), so SQLite does not enforce them.
\<close>

record db =
  cur :: tables
  saved :: "tables option"

subsection \<open>The SQL statements of the checkout routes\<close>

text \<open>\<^verbatim>\<open>SELECT * FROM products WHERE id = ? AND status = "available"\<close> through \<^verbatim>\<open>db.get\<close>:
  the first matching row, if any.\<close>

definition select_available :: "nat \<Rightarrow> tables \<Rightarrow> product option" where
  "select_available productId t =
     find (\<lambda>p. p_id p = productId \<and> p_status p = Available) (products t)"

text \<open>\<^verbatim>\<open>INSERT INTO purchases (buyer_id, product_id, seller_id, price) VALUES (?, ?, ?, ?)\<close>;
  the first component is \<^verbatim>\<open>this.lastID\<close>.\<close>

definition insert_purchase :: "nat \<Rightarrow> nat \<Rightarrow> nat \<Rightarrow> rat \<Rightarrow> tables \<Rightarrow> nat \<times> tables" where
  "insert_purchase buyer productId seller price t =
     (let lastID = Suc (purchases_seq t) in
      (lastID,
       t\<lparr>purchases := purchases t @
            [\<lparr>pu_id = lastID, pu_buyer_id = buyer, pu_product_id = productId,
              pu_seller_id = seller, pu_price = price\<rparr>],
         purchases_seq := lastID\<rparr>))"

text \<open>\<^verbatim>\<open>UPDATE products SET status = "sold" WHERE id = ?\<close>: guarded by the id only.\<close>

definition update_sold :: "nat \<Rightarrow> tables \<Rightarrow> tables" where
  "update_sold productId t =
     t\<lparr>products := map (\<lambda>p. if p_id p = productId then p\<lparr>p_status := Sold\<rparr> else p) (products t)\<rparr>"

text \<open>\<^verbatim>\<open>DELETE FROM cart WHERE user_id = ? AND product_id = ?\<close>\<close>

definition delete_cart :: "nat \<Rightarrow> nat \<Rightarrow> tables \<Rightarrow> tables" where
  "delete_cart userId productId t =
     t\<lparr>cart := filter (\<lambda>c. \<not> (c_user_id c = userId \<and> c_product_id c = productId)) (cart t)\<rparr>"

text \<open>\<^verbatim>\<open>DELETE FROM products WHERE id = ? AND user_id = ?\<close>; the first component is
  \<^verbatim>\<open>this.changes\<close>.\<close>

definition delete_product_row :: "nat \<Rightarrow> nat \<Rightarrow> tables \<Rightarrow> nat \<times> tables" where
  "delete_product_row productId userId t =
     (length (filter (\<lambda>p. p_id p = productId \<and> p_user_id p = userId) (products t)),
      t\<lparr>products := filter (\<lambda>p. \<not> (p_id p = productId \<and> p_user_id p = userId)) (products t)\<rparr>)"

text \<open>
  The process. The routes issue \<^verbatim>\<open>BEGIN TRANSACTION\<close>, \<^verbatim>\<open>COMMIT\<close> and \<^verbatim>\<open>ROLLBACK\<close> through
  \<^verbatim>\<open>db.run\<close> without a callback. SQLite rejects a \<^verbatim>\<open>BEGIN\<close> inside an open transaction and
  a \<^verbatim>\<open>COMMIT\<close> or \<^verbatim>\<open>ROLLBACK\<close> outside one; with no callback to take it, the failure is
  raised as an \<^verbatim>\<open>error\<close> event that nothing handles, and the process ends. \<open>Exited\<close> is that
  outcome; \<open>Alive x\<close> is a process that goes on with \<open>x\<close>.
\<close>

datatype 'a outcome = Exited | Alive 'a

definition and_then :: "'a outcome \<Rightarrow> ('a \<Rightarrow> 'b outcome) \<Rightarrow> 'b outcome" where
  "and_then x f = (case x of Exited \<Rightarrow> Exited | Alive a \<Rightarrow> f a)"

definition begin_transaction :: "db \<Rightarrow> db outcome" where
  "begin_transaction d =
     (case saved d of None \<Rightarrow> Alive (d\<lparr>saved := Some (cur d)\<rparr>) | Some _ \<Rightarrow> Exited)"

definition commit :: "db \<Rightarrow> db outcome" where
  "commit d = (case saved d of None \<Rightarrow> Exited | Some _ \<Rightarrow> Alive (d\<lparr>saved := None\<rparr>))"

definition rollback :: "db \<Rightarrow> db outcome" where
  "rollback d = (case saved d of None \<Rightarrow> Exited | Some t \<Rightarrow> Alive \<lparr>cur = t, saved = None\<rparr>)"

text \<open>A statement on the tables; outside a transaction it is committed at once.\<close>

definition run :: "(tables \<Rightarrow> tables) \<Rightarrow> db \<Rightarrow> db" where
  "run stmt d = d\<lparr>cur := stmt (cur d)\<rparr>"

section \<open>Requests and responses\<close>

text \<open>
  The per-item messages of \<^verbatim>\<open>POST /api/purchase\<close>:
  \<^verbatim>\<open>Product ${productId} not found or unavailable\<close> and
  \<^verbatim>\<open>Cannot purchase your own product ${productId}\<close>. Store failures (the \<^verbatim>\<open>err\<close>
  argument of a callback) are outside this model: every statement on the tables runs.
\<close>

datatype item_error = NotFoundOrUnavailable nat | OwnProduct nat

text \<open>The JSON bodies the routes send, by their keys.\<close>

datatype body =
    Error string
  | ErrorDetails string "item_error list"
  | Message string
  | Purchased string nat
  | BoughtNow string nat product string rat

record response =
  status_code :: nat
  body :: body

fun has_details :: "body \<Rightarrow> bool" where
  "has_details (ErrorDetails _ _) = True"
| "has_details _ = False"

text \<open>The \<^verbatim>\<open>product_ids\<close> field of the request body: absent (or any other falsy value),
  a value that is not an array, or an array of ids.\<close>

datatype ids_field = Missing | NotArray | IdArray "nat list"

text \<open>JavaScript's \<^verbatim>\<open>!x\<close> on the two fields of the buy-now body: an absent field, the
  number 0 and the empty string are falsy.\<close>

definition falsy_id :: "nat option \<Rightarrow> bool" where
  "falsy_id x = (case x of None \<Rightarrow> True | Some n \<Rightarrow> n = 0)"

definition falsy_str :: "string option \<Rightarrow> bool" where
  "falsy_str x = (case x of None \<Rightarrow> True | Some s \<Rightarrow> s = [])"

section \<open>POST /api/purchase\<close>

text \<open>
  The statements the handler issues after its SELECTs. They are issued from callbacks,
  after \<^verbatim>\<open>db.serialize\<close> has returned, and only the INSERT has a callback.
\<close>

datatype stmt =
    InsertPurchase nat product
  | UpdateSold nat
  | DeleteCart nat
  | Rollback
  | Commit

text \<open>
  The closure variables of one request: the two counters of the handler and the response
  once one is sent, together with the statements issued and not yet run. \<open>res = None\<close>
  means that the handler has not answered.
\<close>

record purchase_req =
  completedPurchases :: nat
  errors :: "item_error list"
  queue :: "stmt list"
  res :: "response option"

definition new_req :: purchase_req where
  "new_req = \<lparr>completedPurchases = 0, errors = [], queue = [], res = None\<rparr>"

text \<open>The callback of the SELECT for one product id. Only its last branch goes on to the
  INSERT, whose callback holds the completion check.\<close>

definition select_cb :: "nat \<Rightarrow> tables \<Rightarrow> nat \<Rightarrow> purchase_req \<Rightarrow> purchase_req" where
  "select_cb userId t productId r =
     (case select_available productId t of
        None \<Rightarrow> r\<lparr>errors := errors r @ [NotFoundOrUnavailable productId]\<rparr>
      | Some product \<Rightarrow>
          if p_user_id product = userId
          then r\<lparr>errors := errors r @ [OwnProduct productId]\<rparr>
          else r\<lparr>queue := queue r @ [InsertPurchase productId product]\<rparr>)"

text \<open>The callback of the INSERT for one product: the UPDATE and the DELETE are issued,
  the counter is bumped, and the completion check compares the two counters with
  \<^verbatim>\<open>product_ids.length\<close>; when it holds, the ROLLBACK or the COMMIT is issued and the
  response is sent.\<close>

definition insert_cb :: "nat \<Rightarrow> nat \<Rightarrow> purchase_req \<Rightarrow> purchase_req" where
  "insert_cb n productId r =
     (let r1 = r\<lparr>queue := queue r @ [UpdateSold productId, DeleteCart productId],
                 completedPurchases := completedPurchases r + 1\<rparr>
      in if completedPurchases r1 + length (errors r1) = n
         then (if length (errors r1) > 0
               then r1\<lparr>queue := queue r1 @ [Rollback],
                       res := Some \<lparr>status_code = 400,
                                    body = ErrorDetails ''Purchase failed'' (errors r1)\<rparr>\<rparr>
               else r1\<lparr>queue := queue r1 @ [Commit],
                       res := Some \<lparr>status_code = 200,
                                    body = Purchased ''Purchase completed successfully''
                                             (completedPurchases r1)\<rparr>\<rparr>)
         else r1)"

text \<open>What one statement does to the connection.\<close>

fun run_stmt :: "nat \<Rightarrow> stmt \<Rightarrow> db \<Rightarrow> db outcome" where
  "run_stmt userId (InsertPurchase productId product) d =
     Alive (run (\<lambda>t. snd (insert_purchase userId productId (p_user_id product) (p_price product) t)) d)"
| "run_stmt userId (UpdateSold productId) d = Alive (run (update_sold productId) d)"
| "run_stmt userId (DeleteCart productId) d = Alive (run (delete_cart userId productId) d)"
| "run_stmt userId Rollback d = rollback d"
| "run_stmt userId Commit d = commit d"

text \<open>The callback, if any, of a statement that has run.\<close>

fun callback :: "nat \<Rightarrow> stmt \<Rightarrow> purchase_req \<Rightarrow> purchase_req" where
  "callback n (InsertPurchase productId product) r = insert_cb n productId r"
| "callback n _ r = r"

text \<open>One step of the driver: the statement at position \<open>k\<close> of the queue runs, then its
  callback.\<close>

definition step :: "nat \<Rightarrow> nat \<Rightarrow> nat \<Rightarrow> db \<times> purchase_req \<Rightarrow> (db \<times> purchase_req) outcome" where
  "step userId n k s =
     (let st = queue (snd s) ! k;
          r = (snd s)\<lparr>queue := take k (queue (snd s)) @ drop (Suc k) (queue (snd s))\<rparr>
      in and_then (run_stmt userId st (fst s)) (\<lambda>d. Alive (d, callback n st r)))"

text \<open>
  The order in which the driver runs the statements of the queue is not fixed by the
  handler. It is a parameter, the schedule: each entry picks the position of the next
  statement to run, and when the schedule is used up the statements run in the order of
  issue.
\<close>

definition pick :: "nat list \<Rightarrow> nat \<Rightarrow> nat" where
  "pick sched len = (case sched of [] \<Rightarrow> 0 | k # _ \<Rightarrow> k mod len)"

text \<open>The driver runs statements until the queue is empty. The first argument bounds the
  number of steps.\<close>

fun drain :: "nat \<Rightarrow> nat \<Rightarrow> nat \<Rightarrow> nat list \<Rightarrow> db \<times> purchase_req \<Rightarrow> (db \<times> purchase_req) outcome" where
  "drain 0 userId n sched s = Alive s"
| "drain (Suc fuel) userId n sched s =
     (if queue (snd s) = [] then Alive s
      else and_then (step userId n (pick sched (length (queue (snd s)))) s)
             (drain fuel userId n (tl sched)))"

text \<open>
  The handler. \<^verbatim>\<open>product_ids.forEach\<close> runs to its end inside \<^verbatim>\<open>db.serialize\<close> before any
  callback can run, so \<^verbatim>\<open>BEGIN TRANSACTION\<close> and every SELECT are queued ahead of the first
  INSERT, which is only issued from a SELECT callback: all SELECTs read the tables as they
  are after \<^verbatim>\<open>BEGIN\<close>. The statements issued from then on run as the schedule has it. A
  product id accounts for at most four of them (its INSERT, UPDATE and DELETE and the one
  ROLLBACK or COMMIT), which bounds the steps.
\<close>

definition purchase :: "nat list \<Rightarrow> nat \<Rightarrow> ids_field \<Rightarrow> db \<Rightarrow> (response option \<times> db) outcome" where
  "purchase sched userId product_ids d =
     (case product_ids of
        Missing \<Rightarrow>
          Alive (Some \<lparr>status_code = 400, body = Error ''Product IDs array is required''\<rparr>, d)
      | NotArray \<Rightarrow>
          Alive (Some \<lparr>status_code = 400, body = Error ''Product IDs array is required''\<rparr>, d)
      | IdArray ids \<Rightarrow>
          if length ids = 0
          then Alive (Some \<lparr>status_code = 400, body = Error ''Product IDs array is required''\<rparr>, d)
          else
            and_then (begin_transaction d) (\<lambda>d0.
            and_then (drain (4 * length ids) userId (length ids) sched
                        (d0, fold (select_cb userId (cur d0)) ids new_req)) (\<lambda>s.
            Alive (res (snd s), fst s))))"

section \<open>POST /api/buy-now\<close>

text \<open>The handler up to and including the callback of its SELECT: either a response, or
  the product row the rest of the handler works with.\<close>

definition buy_now_select :: "nat \<Rightarrow> nat option \<Rightarrow> string option \<Rightarrow> db \<Rightarrow> response + product" where
  "buy_now_select userId product_id payment_method d =
     (if falsy_id product_id
      then Inl \<lparr>status_code = 400, body = Error ''Product ID is required''\<rparr>
      else if falsy_str payment_method
      then Inl \<lparr>status_code = 400, body = Error ''Payment method is required''\<rparr>
      else case select_available (the product_id) (cur d) of
             None \<Rightarrow> Inl \<lparr>status_code = 404, body = Error ''Product not found or unavailable''\<rparr>
           | Some product \<Rightarrow>
               if p_user_id product = userId
               then Inl \<lparr>status_code = 400, body = Error ''Cannot purchase your own product''\<rparr>
               else Inr product)"

text \<open>The response of a buy-now that went through.\<close>

definition bought :: "nat \<Rightarrow> product \<Rightarrow> string \<Rightarrow> response" where
  "bought lastID product payment_method =
     \<lparr>status_code = 200,
      body = BoughtNow ''Purchase successful! Your item has been booked.''
               lastID product payment_method (p_price product)\<rparr>"

text \<open>The \<^verbatim>\<open>db.serialize\<close> block that follows: BEGIN, the INSERT, in its callback the
  UPDATE, and in the callback of that the COMMIT and the response. Each statement is issued
  by the callback of the one before, so their order is fixed.\<close>

definition buy_now_sell :: "nat \<Rightarrow> nat \<Rightarrow> string \<Rightarrow> product \<Rightarrow> db \<Rightarrow> (response \<times> db) outcome" where
  "buy_now_sell userId product_id payment_method product d =
     and_then (begin_transaction d) (\<lambda>d1.
       let ins = insert_purchase userId product_id (p_user_id product) (p_price product) (cur d1);
           d2 = d1\<lparr>cur := snd ins\<rparr>;
           d3 = run (update_sold product_id) d2
       in and_then (commit d3) (\<lambda>d4.
            Alive (bought (fst ins) product payment_method, d4)))"

definition buy_now :: "nat \<Rightarrow> nat option \<Rightarrow> string option \<Rightarrow> db \<Rightarrow> (response \<times> db) outcome" where
  "buy_now userId product_id payment_method d =
     (case buy_now_select userId product_id payment_method d of
        Inl r \<Rightarrow> Alive (r, d)
      | Inr product \<Rightarrow> buy_now_sell userId (the product_id) (the payment_method) product d)"

text \<open>
  Two buy-now requests for valid products whose SELECT callbacks have both run before the
  driver gets to the \<^verbatim>\<open>db.serialize\<close> block of either. The blocks are queued in the order
  of the callbacks: BEGIN and INSERT of the first request, BEGIN and INSERT of the second;
  the UPDATE and the COMMIT of each request are issued from its callbacks and queue up
  behind them.
\<close>

definition both_blocks ::
  "nat \<Rightarrow> product \<Rightarrow> nat \<Rightarrow> product \<Rightarrow> nat \<Rightarrow> string \<Rightarrow> db \<Rightarrow> (response \<times> response \<times> db) outcome" where
  "both_blocks user1 product1 user2 product2 product_id payment_method d =
     and_then (begin_transaction d) (\<lambda>d1.
       let ins1 = insert_purchase user1 product_id (p_user_id product1) (p_price product1) (cur d1);
           d2 = d1\<lparr>cur := snd ins1\<rparr>
       in and_then (begin_transaction d2) (\<lambda>d3.
         let ins2 = insert_purchase user2 product_id (p_user_id product2) (p_price product2) (cur d3);
             d4 = d3\<lparr>cur := snd ins2\<rparr>;
             d5 = run (update_sold product_id) d4
         in and_then (commit d5) (\<lambda>d6.
           let d7 = run (update_sold product_id) d6
           in and_then (commit d7) (\<lambda>d8.
             Alive (bought (fst ins1) product1 payment_method,
                    bought (fst ins2) product2 payment_method, d8)))))"

text \<open>The same for any two requests: a request that is answered from its SELECT callback
  issues no statement.\<close>

definition buy_now_overlapped ::
  "nat \<Rightarrow> nat \<Rightarrow> nat option \<Rightarrow> string option \<Rightarrow> db \<Rightarrow> (response \<times> response \<times> db) outcome" where
  "buy_now_overlapped user1 user2 product_id payment_method d =
     (case buy_now_select user1 product_id payment_method d of
        Inl r1 \<Rightarrow>
          and_then (buy_now user2 product_id payment_method d) (\<lambda>a. Alive (r1, fst a, snd a))
      | Inr product1 \<Rightarrow>
          (case buy_now_select user2 product_id payment_method d of
             Inl r2 \<Rightarrow>
               and_then (buy_now_sell user1 (the product_id) (the payment_method) product1 d)
                 (\<lambda>a. Alive (fst a, r2, snd a))
           | Inr product2 \<Rightarrow>
               both_blocks user1 product1 user2 product2 (the product_id) (the payment_method) d))"

section \<open>The routes around the checkout\<close>

text \<open>\<^verbatim>\<open>DELETE /api/products/:id\<close>: one DELETE guarded by id and owner, then the answer by
  \<^verbatim>\<open>this.changes\<close>.\<close>

definition delete_product :: "nat \<Rightarrow> nat \<Rightarrow> db \<Rightarrow> response \<times> db" where
  "delete_product userId productId d =
     (let r = delete_product_row productId userId (cur d);
          d1 = d\<lparr>cur := snd r\<rparr>
      in if fst r = 0
         then (\<lparr>status_code = 404, body = Error ''Product not found or unauthorized''\<rparr>, d1)
         else (\<lparr>status_code = 200, body = Message ''Product deleted successfully''\<rparr>, d1))"

text \<open>\<^verbatim>\<open>GET /api/purchases\<close>: the buyer's purchases joined to products and to the seller's
  user row. The order of the rows (by purchase date) is not modelled.\<close>

definition get_purchases :: "nat \<Rightarrow> tables \<Rightarrow> (purchase_row \<times> product \<times> user) list" where
  "get_purchases userId t =
     [(p, pr, u). p \<leftarrow> purchases t, pr \<leftarrow> products t, pu_product_id p = p_id pr,
                  u \<leftarrow> users t, pu_seller_id p = u_id u, pu_buyer_id p = userId]"

text \<open>\<^verbatim>\<open>GET /api/cart\<close>: the user's cart rows joined to products and sellers, restricted to
  available products.\<close>

definition get_cart :: "nat \<Rightarrow> tables \<Rightarrow> (cart_row \<times> product \<times> user) list" where
  "get_cart userId t =
     [(c, p, u). c \<leftarrow> cart t, p \<leftarrow> products t, c_product_id c = p_id p,
                 u \<leftarrow> users t, p_user_id p = u_id u,
                 c_user_id c = userId \<and> p_status p = Available]"

section \<open>Properties of the store\<close>

text \<open>The rows of the purchase ledger that reference a product.\<close>

definition purchases_of :: "nat \<Rightarrow> tables \<Rightarrow> purchase_row list" where
  "purchases_of productId t = filter (\<lambda>r. pu_product_id r = productId) (purchases t)"

text \<open>Every product row is sold exactly when the ledger has a row for it.\<close>

definition ledger_matches :: "tables \<Rightarrow> bool" where
  "ledger_matches t =
     list_all (\<lambda>p. (purchases_of (p_id p) t \<noteq> []) = (p_status p = Sold)) (products t)"

text \<open>\<^verbatim>\<open>id INTEGER PRIMARY KEY\<close> of the products table.\<close>

definition primary_key :: "tables \<Rightarrow> bool" where
  "primary_key t = distinct (map p_id (products t))"

text \<open>Whether a product id is owned by a user: every row with that id has that owner.\<close>

definition owned_by :: "nat \<Rightarrow> nat \<Rightarrow> tables \<Rightarrow> bool" where
  "owned_by productId userId t =
     list_all (\<lambda>p. p_id p = productId \<longrightarrow> p_user_id p = userId) (products t)"

text \<open>Whether a product id is sold: every row with that id has status sold.\<close>

definition is_sold :: "nat \<Rightarrow> tables \<Rightarrow> bool" where
  "is_sold productId t =
     list_all (\<lambda>p. p_id p = productId \<longrightarrow> p_status p = Sold) (products t)"

text \<open>The products table after the products of a set of ids have been marked sold.\<close>

definition mark_sold :: "nat set \<Rightarrow> product list \<Rightarrow> product list" where
  "mark_sold ids ps = map (\<lambda>p. if p_id p \<in> ids then p\<lparr>p_status := Sold\<rparr> else p) ps"

text \<open>The cart table without the rows of a user for the products of a set of ids.\<close>

definition without_rows :: "nat \<Rightarrow> nat set \<Rightarrow> cart_row list \<Rightarrow> cart_row list" where
  "without_rows userId ids cs =
     filter (\<lambda>c. \<not> (c_user_id c = userId \<and> c_product_id c \<in> ids)) cs"

text \<open>The cart rows of the users other than one.\<close>

definition rows_of_others :: "nat \<Rightarrow> cart_row list \<Rightarrow> cart_row list" where
  "rows_of_others userId cs = filter (\<lambda>c. c_user_id c \<noteq> userId) cs"

text \<open>The product is absent from the cart listing of the user.\<close>

definition not_listed :: "nat \<Rightarrow> nat \<Rightarrow> tables \<Rightarrow> bool" where
  "not_listed userId productId t =
     list_all (\<lambda>x. c_product_id (fst x) \<noteq> productId) (get_cart userId t)"

text \<open>No product row has the id.\<close>

definition no_product :: "nat \<Rightarrow> tables \<Rightarrow> bool" where
  "no_product productId t = list_all (\<lambda>p. p_id p \<noteq> productId) (products t)"

text \<open>No row of the user's purchase history is about the product.\<close>

definition not_in_history :: "nat \<Rightarrow> nat \<Rightarrow> tables \<Rightarrow> bool" where
  "not_in_history userId productId t =
     list_all (\<lambda>x. pu_product_id (fst x) \<noteq> productId) (get_purchases userId t)"

text \<open>The number of steps the statements of a queue can take: an INSERT is followed by
  up to three statements issued from its callback.\<close>

fun weight :: "stmt \<Rightarrow> nat" where
  "weight (InsertPurchase _ _) = 4"
| "weight _ = 1"

text \<open>The product id a statement is about.\<close>

fun target :: "stmt \<Rightarrow> nat option" where
  "target (InsertPurchase productId _) = Some productId"
| "target (UpdateSold productId) = Some productId"
| "target (DeleteCart productId) = Some productId"
| "target _ = None"

text \<open>
  The state of a batch none of whose products failed validation, relative to the set of
  its product ids and to the tables it started from: no ROLLBACK is queued, the statements
  queued are about products of the batch, the tables differ from the initial ones on the
  rows of the batch only, and a product of the batch whose cart row is not yet deleted, or
  which is not yet sold, still has the statement that does it in the queue or to come.
\<close>

definition selling :: "nat \<Rightarrow> nat set \<Rightarrow> tables \<Rightarrow> db \<times> purchase_req \<Rightarrow> bool" where
  "selling userId ids t0 s =
     (errors (snd s) = [] \<and> Rollback \<notin> set (queue (snd s)) \<and>
      (\<forall>st \<in> set (queue (snd s)). \<forall>productId. target st = Some productId \<longrightarrow> productId \<in> ids) \<and>
      without_rows userId ids (cart (cur (fst s))) = without_rows userId ids (cart t0) \<and>
      mark_sold ids (products (cur (fst s))) = mark_sold ids (products t0) \<and>
      (\<forall>productId \<in> ids.
         without_rows userId {productId} (cart (cur (fst s))) = cart (cur (fst s)) \<or>
         DeleteCart productId \<in> set (queue (snd s)) \<or>
         (\<exists>product. InsertPurchase productId product \<in> set (queue (snd s)))) \<and>
      (\<forall>productId \<in> ids.
         is_sold productId (cur (fst s)) \<or>
         UpdateSold productId \<in> set (queue (snd s)) \<or>
         (\<exists>product. InsertPurchase productId product \<in> set (queue (snd s)))))"

text \<open>A response that has been sent is 200 exactly when no product failed validation.\<close>

definition answered_right :: "db \<times> purchase_req \<Rightarrow> bool" where
  "answered_right s =
     (\<forall>x. res (snd s) = Some x \<longrightarrow> (status_code x = 200) = (errors (snd s) = []))"

section \<open>A small shop\<close>

text \<open>
  Alice (1) has listed a lamp (1, available) and a desk (2, sold to Carol); Bob (2) has
  listed a bike (3, available) and a chair (4, sold to Carol). Bob and Carol (3) both have
  the lamp in their carts.
\<close>

definition shop_tables :: tables where
  "shop_tables =
     \<lparr>users = [\<lparr>u_id = 1, username = ''alice''\<rparr>, \<lparr>u_id = 2, username = ''bob''\<rparr>,
               \<lparr>u_id = 3, username = ''carol''\<rparr>],
      products =
        [\<lparr>p_id = 1, p_title = ''lamp'', p_price = 10, p_user_id = 1, p_status = Available\<rparr>,
         \<lparr>p_id = 2, p_title = ''desk'', p_price = 25, p_user_id = 1, p_status = Sold\<rparr>,
         \<lparr>p_id = 3, p_title = ''bike'', p_price = 80, p_user_id = 2, p_status = Available\<rparr>,
         \<lparr>p_id = 4, p_title = ''chair'', p_price = 15, p_user_id = 2, p_status = Sold\<rparr>],
      cart = [\<lparr>c_user_id = 2, c_product_id = 1\<rparr>, \<lparr>c_user_id = 3, c_product_id = 1\<rparr>],
      purchases =
        [\<lparr>pu_id = 1, pu_buyer_id = 3, pu_product_id = 2, pu_seller_id = 1, pu_price = 25\<rparr>,
         \<lparr>pu_id = 2, pu_buyer_id = 3, pu_product_id = 4, pu_seller_id = 2, pu_price = 15\<rparr>],
      purchases_seq = 2\<rparr>"

definition shop :: db where
  "shop = \<lparr>cur = shop_tables, saved = None\<rparr>"

text \<open>The shop after Bob has bought the lamp, through a purchase and through a buy-now,
  and the answer to the purchase.\<close>

definition lamp_sale :: purchase_row where
  "lamp_sale = \<lparr>pu_id = 3, pu_buyer_id = 2, pu_product_id = 1, pu_seller_id = 1, pu_price = 10\<rparr>"

definition shop_after_buy_now :: db where
  "shop_after_buy_now =
     \<lparr>cur = shop_tables
        \<lparr>products := map (\<lambda>p. if p_id p = 1 then p\<lparr>p_status := Sold\<rparr> else p) (products shop_tables),
         purchases := purchases shop_tables @ [lamp_sale],
         purchases_seq := 3\<rparr>,
      saved = None\<rparr>"

definition shop_after_purchase :: db where
  "shop_after_purchase =
     \<lparr>cur = (cur shop_after_buy_now)\<lparr>cart := [\<lparr>c_user_id = 3, c_product_id = 1\<rparr>]\<rparr>,
      saved = None\<rparr>"

definition purchased_one :: response where
  "purchased_one =
     \<lparr>status_code = 200, body = Purchased ''Purchase completed successfully'' 1\<rparr>"

section \<open>Facts about the statements\<close>

lemmas stmt_defs = select_available_def insert_purchase_def update_sold_def delete_cart_def
  delete_product_row_def begin_transaction_def commit_def rollback_def run_def and_then_def

lemmas purchase_defs = purchase_def select_cb_def insert_cb_def new_req_def step_def pick_def

lemmas buy_now_defs = buy_now_def buy_now_select_def buy_now_sell_def falsy_id_def falsy_str_def
  bought_def

lemmas shop_defs = shop_def shop_tables_def
lemmas after_defs = lamp_sale_def shop_after_buy_now_def shop_after_purchase_def purchased_one_def

lemma select_available_row:
  "select_available productId t = Some p \<Longrightarrow>
     p \<in> set (products t) \<and> p_id p = productId \<and> p_status p = Available"
  by (auto simp: select_available_def find_Some_iff)

lemma select_available_sold:
  "is_sold productId t \<Longrightarrow> select_available productId t = None"
  by (auto simp: select_available_def is_sold_def find_None_iff list_all_iff)

lemma select_available_owner:
  "owned_by productId userId t \<Longrightarrow> select_available productId t = Some p \<Longrightarrow> p_user_id p = userId"
  by (auto simp: owned_by_def list_all_iff dest: select_available_row)

lemma is_sold_update_sold: "is_sold productId (update_sold productId t)"
  by (simp add: is_sold_def update_sold_def list_all_iff ball_Un image_iff)

lemma drain_empty: "queue (snd s) = [] \<Longrightarrow> drain fuel userId n sched s = Alive s"
  by (cases fuel) simp_all

lemma drain_numeral:
  "drain (numeral k) userId n sched s =
     (if queue (snd s) = [] then Alive s
      else and_then (step userId n (pick sched (length (queue (snd s)))) s)
             (drain (pred_numeral k) userId n (tl sched)))"
  by (simp add: numeral_eq_Suc)

subsection \<open>Buy-now\<close>

lemma buy_now_sell_result:
  assumes "saved d = None"
  shows "buy_now_sell userId productId payment_method product d =
     Alive (bought (Suc (purchases_seq (cur d))) product payment_method,
            \<lparr>cur = (cur d)
               \<lparr>products := map (\<lambda>p. if p_id p = productId then p\<lparr>p_status := Sold\<rparr> else p)
                               (products (cur d)),
                purchases := purchases (cur d) @
                  [\<lparr>pu_id = Suc (purchases_seq (cur d)), pu_buyer_id = userId,
                    pu_product_id = productId, pu_seller_id = p_user_id product,
                    pu_price = p_price product\<rparr>],
                purchases_seq := Suc (purchases_seq (cur d))\<rparr>,
             saved = None\<rparr>)"
  using assms
  by (simp add: buy_now_sell_def begin_transaction_def commit_def and_then_def run_def
      insert_purchase_def update_sold_def Let_def)

lemma buy_now_sell_in_transaction:
  "saved d \<noteq> None \<Longrightarrow> buy_now_sell userId productId payment_method product d = Exited"
  by (auto simp: buy_now_sell_def begin_transaction_def and_then_def)

lemma buy_now_valid:
  assumes "select_available productId (cur d) = Some product"
    and "p_user_id product \<noteq> userId" and "productId \<noteq> 0" and "payment_method \<noteq> []"
  shows "buy_now_select userId (Some productId) (Some payment_method) d = Inr product"
    and "buy_now userId (Some productId) (Some payment_method) d =
           buy_now_sell userId productId payment_method product d"
  using assms by (simp_all add: buy_now_def buy_now_select_def falsy_id_def falsy_str_def)

lemma buy_now_on_sold:
  assumes "is_sold productId (cur d)" and "productId \<noteq> 0" and "payment_method \<noteq> []"
  shows "buy_now userId (Some productId) (Some payment_method) d =
           Alive (\<lparr>status_code = 404, body = Error ''Product not found or unavailable''\<rparr>, d)"
  using assms by (simp add: buy_now_def buy_now_select_def falsy_id_def falsy_str_def
      select_available_sold)

lemma both_blocks_exit:
  "both_blocks user1 product1 user2 product2 productId payment_method d = Exited"
  by (simp add: both_blocks_def begin_transaction_def and_then_def Let_def split: option.split)

lemma buy_now_overlapped_exit:
  assumes "select_available productId (cur d) = Some product"
    and "p_user_id product \<noteq> user1" and "p_user_id product \<noteq> user2"
    and "productId \<noteq> 0" and "payment_method \<noteq> []"
  shows "buy_now_overlapped user1 user2 (Some productId) (Some payment_method) d = Exited"
  using assms
  by (simp add: buy_now_overlapped_def buy_now_valid(1) both_blocks_exit)

lemma buy_now_answered_200:
  assumes "buy_now userId (Some productId) payment_method d = Alive (r, d')"
    and "status_code r = 200"
  shows "select_available productId (cur d) \<noteq> None"
    and "products (cur d') = mark_sold {productId} (products (cur d))"
    and "cart (cur d') = cart (cur d)"
proof -
  from assms obtain product where
    sel: "buy_now_select userId (Some productId) payment_method d = Inr product"
    by (cases "buy_now_select userId (Some productId) payment_method d")
      (auto simp: buy_now_def buy_now_select_def split: if_splits option.splits)
  then show "select_available productId (cur d) \<noteq> None"
    by (auto simp: buy_now_select_def split: if_splits option.splits)
  from sel assms(1) have b: "buy_now_sell userId productId (the payment_method) product d = Alive (r, d')"
    by (simp add: buy_now_def)
  then have "saved d = None"
    by (cases "saved d") (simp_all add: buy_now_sell_def begin_transaction_def and_then_def)
  then have "cur d' = (cur d)
     \<lparr>products := map (\<lambda>p. if p_id p = productId then p\<lparr>p_status := Sold\<rparr> else p)
                     (products (cur d)),
      purchases := purchases (cur d) @
        [\<lparr>pu_id = Suc (purchases_seq (cur d)), pu_buyer_id = userId,
          pu_product_id = productId, pu_seller_id = p_user_id product,
          pu_price = p_price product\<rparr>],
      purchases_seq := Suc (purchases_seq (cur d))\<rparr>"
    using b
    by (auto simp: buy_now_sell_def begin_transaction_def commit_def and_then_def run_def
        insert_purchase_def update_sold_def Let_def)
  then show "products (cur d') = mark_sold {productId} (products (cur d))"
    and "cart (cur d') = cart (cur d)"
    by (simp_all add: mark_sold_def)
qed

lemma is_sold_mark_sold: "products t' = mark_sold {productId} ps \<Longrightarrow> is_sold productId t'"
  by (simp add: is_sold_def mark_sold_def list_all_iff ball_Un image_iff)

lemma sold_not_listed: "is_sold productId t \<Longrightarrow> not_listed userId productId t"
  by (auto simp: not_listed_def get_cart_def is_sold_def list_all_iff)

subsection \<open>The SELECT callbacks of a batch\<close>

lemma select_cb_cases:
  "(select_cb userId t productId r = r\<lparr>errors := errors r @ [NotFoundOrUnavailable productId]\<rparr>) \<or>
   (select_cb userId t productId r = r\<lparr>errors := errors r @ [OwnProduct productId]\<rparr>) \<or>
   (\<exists>product. select_available productId t = Some product \<and> p_user_id product \<noteq> userId \<and>
      select_cb userId t productId r = r\<lparr>queue := queue r @ [InsertPurchase productId product]\<rparr>)"
  by (simp add: select_cb_def split: option.split)

lemma fold_select_cb_no_valid:
  "queue r = [] \<Longrightarrow> res r = None \<Longrightarrow>
   list_all (\<lambda>productId. case select_available productId t of None \<Rightarrow> True
                          | Some product \<Rightarrow> p_user_id product = userId) ids \<Longrightarrow>
   queue (fold (select_cb userId t) ids r) = [] \<and> res (fold (select_cb userId t) ids r) = None"
proof (induction ids rule: rev_induct)
  case Nil
  then show ?case by simp
next
  case (snoc x xs)
  then show ?case
    by (auto simp: select_cb_def split: option.split)
qed

lemma fold_select_cb_queue:
  assumes "errors (fold (select_cb userId t) ids r) = []"
  shows "errors r = [] \<and>
         (\<forall>productId \<in> set ids. \<exists>product.
            InsertPurchase productId product \<in> set (queue (fold (select_cb userId t) ids r)) \<and>
            select_available productId t = Some product)"
  using assms
proof (induction ids rule: rev_induct)
  case Nil
  then show ?case by simp
next
  case (snoc x xs)
  let ?r = "fold (select_cb userId t) xs r"
  from snoc.prems have e: "errors (select_cb userId t x ?r) = []" by simp
  with select_cb_cases [of userId t x ?r]
  obtain product where p: "select_available x t = Some product"
    and f: "select_cb userId t x ?r = ?r\<lparr>queue := queue ?r @ [InsertPurchase x product]\<rparr>"
    by auto
  from e f have "errors ?r = []" by simp
  from snoc.IH [OF this] have ih: "errors r = []"
    "\<forall>productId \<in> set xs. \<exists>product.
        InsertPurchase productId product \<in> set (queue ?r) \<and>
        select_available productId t = Some product"
    by blast+
  have "\<exists>product. InsertPurchase productId product \<in> set (queue (select_cb userId t x ?r)) \<and>
          select_available productId t = Some product"
    if "productId \<in> set (xs @ [x])" for productId
  proof (cases "productId = x")
    case True
    then show ?thesis using p by (auto simp: f)
  next
    case False
    with that have "productId \<in> set xs" by simp
    with ih(2) show ?thesis by (auto simp: f)
  qed
  with ih(1) show ?case by simp
qed

lemma select_cb_shape:
  "res (select_cb userId t x r) = res r \<and>
   sum_list (map weight (queue (select_cb userId t x r))) \<le> sum_list (map weight (queue r)) + 4 \<and>
   set (queue (select_cb userId t x r)) \<subseteq>
     set (queue r) \<union> {st. \<exists>product. st = InsertPurchase x product}"
  using select_cb_cases [of userId t x r] by (elim disjE exE conjE) simp_all

lemma fold_select_cb_shape:
  "res (fold (select_cb userId t) ids r) = res r \<and>
   sum_list (map weight (queue (fold (select_cb userId t) ids r))) \<le>
     sum_list (map weight (queue r)) + 4 * length ids \<and>
   set (queue (fold (select_cb userId t) ids r)) \<subseteq>
     set (queue r) \<union> {st. \<exists>productId product. productId \<in> set ids \<and> st = InsertPurchase productId product}"
proof (induction ids rule: rev_induct)
  case Nil
  show ?case by simp
next
  case (snoc x xs)
  let ?r = "fold (select_cb userId t) xs r"
  from select_cb_shape [of userId t x ?r] snoc
  have 1: "res (select_cb userId t x ?r) = res r"
    and 2: "sum_list (map weight (queue (select_cb userId t x ?r))) \<le>
            sum_list (map weight (queue r)) + 4 * length xs + 4"
    and 3: "set (queue (select_cb userId t x ?r)) \<subseteq>
            set (queue ?r) \<union> {st. \<exists>product. st = InsertPurchase x product}"
    by simp_all
  from snoc have 4: "set (queue ?r) \<subseteq>
     set (queue r) \<union> {st. \<exists>productId product. productId \<in> set xs \<and> st = InsertPurchase productId product}"
    by blast
  have "set (queue (select_cb userId t x ?r)) \<subseteq>
     set (queue r) \<union> {st. \<exists>productId product. productId \<in> insert x (set xs) \<and> st = InsertPurchase productId product}"
    using 3 4 by blast
  with 1 2 show ?case by simp
qed

subsection \<open>The queue of a batch\<close>

lemma queue_without:
  assumes "k < length q"
  shows "set (take k q @ drop (Suc k) q) \<subseteq> set q"
    and "set q \<subseteq> insert (q ! k) (set (take k q @ drop (Suc k) q))"
proof -
  have "q = take k q @ q ! k # drop (Suc k) q"
    using assms by (rule id_take_nth_drop)
  then have "set q = set (take k q) \<union> insert (q ! k) (set (drop (Suc k) q))"
    by (metis set_append list.simps(15))
  then show "set (take k q @ drop (Suc k) q) \<subseteq> set q"
    and "set q \<subseteq> insert (q ! k) (set (take k q @ drop (Suc k) q))"
    by auto
qed

lemma weight_without:
  assumes "k < length q"
  shows "sum_list (map weight q) =
         weight (q ! k) + sum_list (map weight (take k q @ drop (Suc k) q))"
proof -
  have "q = take k q @ q ! k # drop (Suc k) q"
    using assms by (rule id_take_nth_drop)
  then have "sum_list (map weight q) =
             sum_list (map weight (take k q @ q ! k # drop (Suc k) q))"
    by simp
  then show ?thesis by simp
qed

lemma pick_less: "q \<noteq> [] \<Longrightarrow> pick sched (length q) < length q"
  by (simp add: pick_def split: list.split)

lemma insert_cb_queue:
  "queue (insert_cb n productId r) =
     queue r @ [UpdateSold productId, DeleteCart productId] @
       (if Suc (completedPurchases r) + length (errors r) = n
        then (if errors r \<noteq> [] then [Rollback] else [Commit]) else [])"
  by (simp add: insert_cb_def Let_def)

lemma insert_cb_errors: "errors (insert_cb n productId r) = errors r"
  by (simp add: insert_cb_def Let_def)

lemma insert_cb_res:
  "res (insert_cb n productId r) =
     (if Suc (completedPurchases r) + length (errors r) = n
      then Some (if errors r \<noteq> []
                 then \<lparr>status_code = 400, body = ErrorDetails ''Purchase failed'' (errors r)\<rparr>
                 else \<lparr>status_code = 200,
                       body = Purchased ''Purchase completed successfully''
                                (Suc (completedPurchases r))\<rparr>)
      else res r)"
  by (simp add: insert_cb_def Let_def)

lemma step_cases:
  assumes "step userId n k s = Alive s'"
  obtains d where "run_stmt userId (queue (snd s) ! k) (fst s) = Alive d"
    and "s' = (d, callback n (queue (snd s) ! k)
                    ((snd s)\<lparr>queue := take k (queue (snd s)) @ drop (Suc k) (queue (snd s))\<rparr>))"
  using assms by (auto simp: step_def and_then_def Let_def split: outcome.splits)

lemma step_weight:
  assumes "k < length (queue (snd s))" and "step userId n k s = Alive s'"
  shows "sum_list (map weight (queue (snd s'))) < sum_list (map weight (queue (snd s)))"
proof -
  from assms(2) obtain d where
    s': "s' = (d, callback n (queue (snd s) ! k)
                    ((snd s)\<lparr>queue := take k (queue (snd s)) @ drop (Suc k) (queue (snd s))\<rparr>))"
    by (rule step_cases)
  show ?thesis
    unfolding s' weight_without [OF assms(1)]
    by (cases "queue (snd s) ! k") (simp_all add: insert_cb_queue)
qed

lemma drain_empties_queue:
  "sum_list (map weight (queue (snd s))) \<le> fuel \<Longrightarrow>
   drain fuel userId n sched s = Alive s' \<Longrightarrow> queue (snd s') = []"
proof (induction fuel arbitrary: s sched)
  case 0
  then have "\<forall>st \<in> set (queue (snd s)). weight st = 0"
    by (simp add: sum_list_eq_0_iff)
  moreover have "weight st \<noteq> 0" for st by (cases st) simp_all
  ultimately have "queue (snd s) = []" by (cases "queue (snd s)") auto
  with 0 show ?case by simp
next
  case (Suc fuel)
  show ?case
  proof (cases "queue (snd s) = []")
    case True
    with Suc.prems show ?thesis by simp
  next
    case False
    let ?k = "pick sched (length (queue (snd s)))"
    from False Suc.prems(2) obtain s1 where
      1: "step userId n ?k s = Alive s1" and 2: "drain fuel userId n (tl sched) s1 = Alive s'"
      by (auto simp: and_then_def split: outcome.splits)
    from step_weight [OF pick_less [OF False] 1] Suc.prems(1)
    have "sum_list (map weight (queue (snd s1))) \<le> fuel" by simp
    from Suc.IH [OF this 2] show ?thesis .
  qed
qed

lemma drain_induct:
  assumes "P s"
    and "\<And>s k s'. P s \<Longrightarrow> k < length (queue (snd s)) \<Longrightarrow> step userId n k s = Alive s' \<Longrightarrow> P s'"
    and "drain fuel userId n sched s = Alive s'"
  shows "P s'"
  using assms(1,3)
proof (induction fuel arbitrary: s sched)
  case 0
  then show ?case by simp
next
  case (Suc fuel)
  show ?case
  proof (cases "queue (snd s) = []")
    case True
    with Suc.prems show ?thesis by simp
  next
    case False
    let ?k = "pick sched (length (queue (snd s)))"
    from False Suc.prems(2) obtain s1 where
      1: "step userId n ?k s = Alive s1" and 2: "drain fuel userId n (tl sched) s1 = Alive s'"
      by (auto simp: and_then_def split: outcome.splits)
    have "P s1" using Suc.prems(1) pick_less [OF False] 1 by (rule assms(2))
    then show ?thesis using 2 by (rule Suc.IH)
  qed
qed

lemma step_errors:
  "step userId n k s = Alive s' \<Longrightarrow> errors (snd s') = errors (snd s)"
  by (erule step_cases, cases "queue (snd s) ! k") (simp_all add: insert_cb_errors)

lemma drain_errors:
  assumes "drain fuel userId n sched s = Alive s'"
  shows "errors (snd s') = errors (snd s)"
proof (rule drain_induct [where P = "\<lambda>a. errors (snd a) = errors (snd s)", OF _ _ assms])
  show "errors (snd s) = errors (snd s)" ..
next
  fix a k b
  assume "errors (snd a) = errors (snd s)" and "step userId n k a = Alive b"
  then show "errors (snd b) = errors (snd s)"
    by (simp only: step_errors)
qed

lemma step_res:
  assumes "step userId n k s = Alive s'"
    and "\<forall>x. res (snd s) = Some x \<longrightarrow> (status_code x = 200) = (errors (snd s) = [])"
  shows "\<forall>x. res (snd s') = Some x \<longrightarrow> (status_code x = 200) = (errors (snd s') = [])"
  using assms(1)
proof (rule step_cases)
  fix d
  assume s': "s' = (d, callback n (queue (snd s) ! k)
                    ((snd s)\<lparr>queue := take k (queue (snd s)) @ drop (Suc k) (queue (snd s))\<rparr>))"
  show ?thesis
  proof (cases "queue (snd s) ! k")
    case (InsertPurchase productId product)
    show ?thesis
      using assms(2)
      by (simp add: s' InsertPurchase insert_cb_errors insert_cb_res)
  qed (use assms(2) in \<open>simp_all add: s'\<close>)
qed

lemma drain_answered_right:
  assumes "drain fuel userId n sched s = Alive s'" and "answered_right s"
  shows "answered_right s'"
proof (rule drain_induct [where P = answered_right, OF assms(2) _ assms(1)])
  fix a k b
  assume "answered_right a" and "step userId n k a = Alive b"
  then show "answered_right b"
    unfolding answered_right_def using step_res [of userId n k a b] by blast
qed

lemma drain_res:
  assumes "drain fuel userId n sched s = Alive s'" and "res (snd s) = None"
    and "res (snd s') = Some x" and "status_code x = 200"
  shows "errors (snd s) = []"
proof -
  have "answered_right s" using assms(2) by (simp add: answered_right_def)
  with assms(1) have "answered_right s'" by (rule drain_answered_right)
  with assms(3,4) have "errors (snd s') = []" by (simp add: answered_right_def)
  with drain_errors [OF assms(1)] show ?thesis by simp
qed

text \<open>The bound on the steps of a batch is enough: its queue ends up empty.\<close>

lemma drain_batch_empties:
  assumes "drain (4 * length ids) userId n sched (d0, fold (select_cb userId t) ids new_req) = Alive s'"
  shows "queue (snd s') = []"
proof -
  have "sum_list (map weight (queue (fold (select_cb userId t) ids new_req))) \<le> 4 * length ids"
    using fold_select_cb_shape [of userId t ids new_req] by (simp add: new_req_def)
  then show ?thesis
    using drain_empties_queue [OF _ assms] by simp
qed

subsection \<open>A batch without errors\<close>

lemma clean_iff:
  "(without_rows userId {productId} cs = cs) =
     (\<forall>c \<in> set cs. \<not> (c_user_id c = userId \<and> c_product_id c = productId))"
  by (simp add: without_rows_def filter_id_conv)

lemma cart_insert_purchase [simp]:
  "cart (snd (insert_purchase userId productId seller price t)) = cart t"
  "products (snd (insert_purchase userId productId seller price t)) = products t"
  by (simp_all add: insert_purchase_def Let_def)

lemma cart_update_sold [simp]: "cart (update_sold productId t) = cart t"
  by (simp add: update_sold_def)

lemma products_delete_cart [simp]: "products (delete_cart userId productId t) = products t"
  by (simp add: delete_cart_def)

lemma is_sold_cong: "products t = products t' \<Longrightarrow> is_sold productId t = is_sold productId t'"
  by (simp add: is_sold_def)

lemma without_rows_delete_cart:
  "productId \<in> ids \<Longrightarrow>
   without_rows userId ids (cart (delete_cart userId productId t)) = without_rows userId ids (cart t)"
  by (auto simp: without_rows_def delete_cart_def intro: filter_cong)

lemma clean_delete_cart:
  "without_rows userId {productId} (cart (delete_cart userId productId t)) =
     cart (delete_cart userId productId t)"
  by (simp add: clean_iff delete_cart_def)

lemma clean_kept:
  "without_rows userId {p'} (cart t) = cart t \<Longrightarrow>
   without_rows userId {p'} (cart (delete_cart userId productId t)) =
     cart (delete_cart userId productId t)"
  by (simp add: clean_iff delete_cart_def)

lemma mark_sold_update_sold:
  "productId \<in> ids \<Longrightarrow>
   mark_sold ids (products (update_sold productId t)) = mark_sold ids (products t)"
  by (simp add: mark_sold_def update_sold_def)

lemma is_sold_kept: "is_sold p' t \<Longrightarrow> is_sold p' (update_sold productId t)"
  by (simp add: is_sold_def update_sold_def list_all_iff ball_Un image_iff)

lemma step_selling:
  assumes inv: "selling userId ids t0 s" and k: "k < length (queue (snd s))"
    and st: "step userId n k s = Alive s'"
  shows "selling userId ids t0 s'"
proof -
  define q where "q = queue (snd s)"
  define q' where "q' = take k q @ drop (Suc k) q"
  define x where "x = q ! k"
  define t where "t = cur (fst s)"
  from st obtain d where run: "run_stmt userId x (fst s) = Alive d"
    and s': "s' = (d, callback n x ((snd s)\<lparr>queue := q'\<rparr>))"
    unfolding q_def q'_def x_def by (rule step_cases)
  have sub: "set q' \<subseteq> set q" "set q \<subseteq> insert x (set q')"
    using queue_without [of k q] k unfolding q_def q'_def x_def by blast+
  have mem: "x \<in> set q" using k unfolding q_def x_def by simp
  from inv have e: "errors (snd s) = []" and nr: "Rollback \<notin> set q"
    and tg: "\<forall>st \<in> set q. \<forall>productId. target st = Some productId \<longrightarrow> productId \<in> ids"
    and cf: "without_rows userId ids (cart t) = without_rows userId ids (cart t0)"
    and pf: "mark_sold ids (products t) = mark_sold ids (products t0)"
    and cd: "\<forall>productId \<in> ids. without_rows userId {productId} (cart t) = cart t \<or>
         DeleteCart productId \<in> set q \<or> (\<exists>product. InsertPurchase productId product \<in> set q)"
    and pd: "\<forall>productId \<in> ids. is_sold productId t \<or>
         UpdateSold productId \<in> set q \<or> (\<exists>product. InsertPurchase productId product \<in> set q)"
    unfolding selling_def q_def t_def by blast+
  have goal: "selling userId ids t0 s'"
    if e': "errors (snd s') = []"
      and qs: "set (queue (snd s')) \<subseteq> insert Commit (set q' \<union> A)" "set q' \<union> A \<subseteq> set (queue (snd s'))"
      and A: "\<forall>st \<in> A. \<forall>productId. target st = Some productId \<longrightarrow> productId \<in> ids"
      and nA: "Rollback \<notin> A"
      and cf': "without_rows userId ids (cart (cur d)) = without_rows userId ids (cart t)"
      and pf': "mark_sold ids (products (cur d)) = mark_sold ids (products t)"
      and cd': "\<forall>productId \<in> ids.
          (without_rows userId {productId} (cart t) = cart t \<longrightarrow>
             without_rows userId {productId} (cart (cur d)) = cart (cur d)) \<and>
          (x = DeleteCart productId \<longrightarrow>
             without_rows userId {productId} (cart (cur d)) = cart (cur d)) \<and>
          ((\<exists>product. x = InsertPurchase productId product) \<longrightarrow> DeleteCart productId \<in> A)"
      and pd': "\<forall>productId \<in> ids.
          (is_sold productId t \<longrightarrow> is_sold productId (cur d)) \<and>
          (x = UpdateSold productId \<longrightarrow> is_sold productId (cur d)) \<and>
          ((\<exists>product. x = InsertPurchase productId product) \<longrightarrow> UpdateSold productId \<in> A)"
    for A
  proof -
    have 2: "Rollback \<notin> set (queue (snd s'))"
    proof
      assume "Rollback \<in> set (queue (snd s'))"
      with qs(1) have "Rollback \<in> set q' \<or> Rollback \<in> A" by auto
      with sub(1) nr nA show False by auto
    qed
    have 3: "\<forall>st \<in> set (queue (snd s')). \<forall>productId. target st = Some productId \<longrightarrow> productId \<in> ids"
    proof (intro ballI allI impI)
      fix st productId
      assume a: "st \<in> set (queue (snd s'))" and b: "target st = Some productId"
      from a qs(1) have "st = Commit \<or> st \<in> set q' \<or> st \<in> A" by auto
      with b sub(1) tg A show "productId \<in> ids" by auto
    qed
    have 4: "\<forall>productId \<in> ids.
         without_rows userId {productId} (cart (cur d)) = cart (cur d) \<or>
         DeleteCart productId \<in> set (queue (snd s')) \<or>
         (\<exists>product. InsertPurchase productId product \<in> set (queue (snd s')))"
    proof
      fix productId assume i: "productId \<in> ids"
      from cd i consider "without_rows userId {productId} (cart t) = cart t"
        | "DeleteCart productId \<in> set q" | product where "InsertPurchase productId product \<in> set q"
        by blast
      then show "without_rows userId {productId} (cart (cur d)) = cart (cur d) \<or>
         DeleteCart productId \<in> set (queue (snd s')) \<or>
         (\<exists>product. InsertPurchase productId product \<in> set (queue (snd s')))"
      proof cases
        case 1
        with cd' i show ?thesis by blast
      next
        case 2
        with sub(2) have "x = DeleteCart productId \<or> DeleteCart productId \<in> set q'" by blast
        with cd' i qs(2) show ?thesis by blast
      next
        case 3
        with sub(2) have "x = InsertPurchase productId product \<or>
            InsertPurchase productId product \<in> set q'" by blast
        with cd' i qs(2) show ?thesis by blast
      qed
    qed
    have 5: "\<forall>productId \<in> ids.
         is_sold productId (cur d) \<or> UpdateSold productId \<in> set (queue (snd s')) \<or>
         (\<exists>product. InsertPurchase productId product \<in> set (queue (snd s')))"
    proof
      fix productId assume i: "productId \<in> ids"
      from pd i consider "is_sold productId t"
        | "UpdateSold productId \<in> set q" | product where "InsertPurchase productId product \<in> set q"
        by blast
      then show "is_sold productId (cur d) \<or> UpdateSold productId \<in> set (queue (snd s')) \<or>
         (\<exists>product. InsertPurchase productId product \<in> set (queue (snd s')))"
      proof cases
        case 1
        with pd' i show ?thesis by blast
      next
        case 2
        with sub(2) have "x = UpdateSold productId \<or> UpdateSold productId \<in> set q'" by blast
        with pd' i qs(2) show ?thesis by blast
      next
        case 3
        with sub(2) have "x = InsertPurchase productId product \<or>
            InsertPurchase productId product \<in> set q'" by blast
        with pd' i qs(2) show ?thesis by blast
      qed
    qed
    have f: "fst s' = d" by (simp add: s')
    show ?thesis
      unfolding selling_def f using e' 2 3 4 5 cf cf' pf pf' by simp
  qed
  have tx: "\<forall>productId. target x = Some productId \<longrightarrow> productId \<in> ids"
    using tg mem by blast
  show ?thesis
  proof (cases x)
    case (InsertPurchase productId product)
    have d: "cart (cur d) = cart t" "products (cur d) = products t"
      using run InsertPurchase by (auto simp: run_def t_def)
    have pid: "productId \<in> ids" using tx InsertPurchase by simp
    show ?thesis
    proof (rule goal [of "{UpdateSold productId, DeleteCart productId}"])
      show "errors (snd s') = []" using e by (simp add: s' InsertPurchase insert_cb_errors)
      show "set (queue (snd s')) \<subseteq> insert Commit (set q' \<union> {UpdateSold productId, DeleteCart productId})"
        using e by (auto simp: s' InsertPurchase insert_cb_queue)
      show "set q' \<union> {UpdateSold productId, DeleteCart productId} \<subseteq> set (queue (snd s'))"
        by (auto simp: s' InsertPurchase insert_cb_queue)
      show "\<forall>st \<in> {UpdateSold productId, DeleteCart productId}.
              \<forall>productId. target st = Some productId \<longrightarrow> productId \<in> ids"
        using pid by simp
    qed (simp_all add: d InsertPurchase is_sold_cong [OF d(2)])
  next
    case (UpdateSold productId)
    have d: "cur d = update_sold productId t"
      using run UpdateSold by (auto simp: run_def t_def)
    have pid: "productId \<in> ids" using tx UpdateSold by simp
    show ?thesis
    proof (rule goal [of "{}"])
      show "mark_sold ids (products (cur d)) = mark_sold ids (products t)"
        unfolding d using pid by (rule mark_sold_update_sold)
    qed (auto simp: s' UpdateSold d e is_sold_kept is_sold_update_sold)
  next
    case (DeleteCart productId)
    have d: "cur d = delete_cart userId productId t"
      using run DeleteCart by (auto simp: run_def t_def)
    have pid: "productId \<in> ids" using tx DeleteCart by simp
    show ?thesis
    proof (rule goal [of "{}"])
      show "without_rows userId ids (cart (cur d)) = without_rows userId ids (cart t)"
        unfolding d using pid by (rule without_rows_delete_cart)
    qed (auto simp: s' DeleteCart d e clean_kept clean_delete_cart
        is_sold_cong [of "delete_cart userId productId t" t])
  next
    case Rollback
    with mem nr show ?thesis by simp
  next
    case Commit
    have d: "cur d = t"
      using run Commit by (auto simp: commit_def t_def split: option.splits)
    show ?thesis
      by (rule goal [of "{}"]) (auto simp: s' Commit d e)
  qed
qed

lemma drain_selling:
  "selling userId ids t0 s \<Longrightarrow> drain fuel userId n sched s = Alive s' \<Longrightarrow>
   selling userId ids t0 s'"
  by (rule drain_induct [where P = "selling userId ids t0"]) (auto intro: step_selling)

lemma all_clean:
  assumes "\<forall>productId \<in> ids. without_rows userId {productId} cs = cs"
  shows "without_rows userId ids cs = cs"
  using assms unfolding clean_iff by (auto simp: without_rows_def filter_id_conv)

lemma all_sold:
  assumes "\<forall>productId \<in> ids. is_sold productId t"
  shows "mark_sold ids (products t) = products t"
proof -
  have "(if p_id p \<in> ids then p\<lparr>p_status := Sold\<rparr> else p) = p" if "p \<in> set (products t)" for p
    using assms that by (auto simp: is_sold_def list_all_iff)
  then show ?thesis
    unfolding mark_sold_def by (simp add: map_idI)
qed

lemma purchase_answered_200:
  assumes "purchase sched userId (IdArray ids) d = Alive (Some r, d')" and "status_code r = 200"
  shows "saved d = None"
    and "cart (cur d') = without_rows userId (set ids) (cart (cur d))"
    and "products (cur d') = mark_sold (set ids) (products (cur d))"
    and "\<forall>productId \<in> set ids. select_available productId (cur d) \<noteq> None \<and> is_sold productId (cur d')"
proof -
  have ne: "ids \<noteq> []"
    using assms by (auto simp: purchase_def)
  from assms(1) ne obtain d0 where b: "begin_transaction d = Alive d0"
    by (auto simp: purchase_def and_then_def split: outcome.splits)
  then show n: "saved d = None"
    by (auto simp: begin_transaction_def split: option.splits)
  with b have d0: "d0 = d\<lparr>saved := Some (cur d)\<rparr>"
    by (simp add: begin_transaction_def)
  define r0 where "r0 = fold (select_cb userId (cur d)) ids new_req"
  have c0: "cur d0 = cur d" by (simp add: d0)
  from assms(1) ne b obtain s' where
    dr: "drain (4 * length ids) userId (length ids) sched (d0, r0) = Alive s'"
    and s': "res (snd s') = Some r" "fst s' = d'"
    unfolding r0_def c0 [symmetric]
    by (auto simp: purchase_def and_then_def split: outcome.splits)
  note shape = fold_select_cb_shape [of userId "cur d" ids new_req, folded r0_def]
  have r0n: "res r0 = None" using shape by (simp add: new_req_def)
  have e0: "errors r0 = []"
    using drain_res [OF dr _ s'(1) assms(2)] r0n by simp
  from fold_select_cb_queue [of userId "cur d" ids new_req, folded r0_def, OF e0]
  have ins: "\<forall>productId \<in> set ids. \<exists>product.
            InsertPurchase productId product \<in> set (queue r0) \<and>
            select_available productId (cur d) = Some product"
    by blast
  have sub: "set (queue r0) \<subseteq>
      {st. \<exists>productId product. productId \<in> set ids \<and> st = InsertPurchase productId product}"
    using shape by (simp add: new_req_def)
  have "selling userId (set ids) (cur d) (d0, r0)"
    unfolding selling_def using e0 ins sub by (auto simp: c0)
  from drain_selling [OF this dr] have inv: "selling userId (set ids) (cur d) s'" .
  have q: "queue (snd s') = []"
    using dr unfolding r0_def by (rule drain_batch_empties)
  from inv q have
    cf: "without_rows userId (set ids) (cart (cur d')) = without_rows userId (set ids) (cart (cur d))"
    and pf: "mark_sold (set ids) (products (cur d')) = mark_sold (set ids) (products (cur d))"
    and cd: "\<forall>productId \<in> set ids. without_rows userId {productId} (cart (cur d')) = cart (cur d')"
    and pd: "\<forall>productId \<in> set ids. is_sold productId (cur d')"
    unfolding selling_def s'(2) by simp_all
  show "cart (cur d') = without_rows userId (set ids) (cart (cur d))"
    using all_clean [OF cd] cf by simp
  show "products (cur d') = mark_sold (set ids) (products (cur d))"
    using all_sold [OF pd] pf by simp
  show "\<forall>productId \<in> set ids. select_available productId (cur d) \<noteq> None \<and> is_sold productId (cur d')"
    using ins pd by auto
qed

subsection \<open>Batches that are not answered 200\<close>

lemma purchase_no_valid_item:
  assumes "ids \<noteq> []"
    and "list_all (\<lambda>productId. case select_available productId (cur d) of None \<Rightarrow> True
                          | Some product \<Rightarrow> p_user_id product = userId) ids"
  shows "purchase sched userId (IdArray ids) d =
           (case saved d of None \<Rightarrow> Alive (None, d\<lparr>saved := Some (cur d)\<rparr>) | Some t \<Rightarrow> Exited)"
proof (cases "saved d")
  case None
  let ?d0 = "d\<lparr>saved := Some (cur d)\<rparr>"
  have "queue (fold (select_cb userId (cur ?d0)) ids new_req) = [] \<and>
        res (fold (select_cb userId (cur ?d0)) ids new_req) = None"
    using assms(2) by (intro fold_select_cb_no_valid) (simp_all add: new_req_def)
  then show ?thesis
    using assms(1) None
    by (simp add: purchase_def begin_transaction_def and_then_def drain_empty)
next
  case (Some t)
  then show ?thesis
    using assms(1) by (simp add: purchase_def begin_transaction_def and_then_def)
qed


text \<open>In the order of issue, a batch of the available lamp and the sold desk is answered
  400 with the failed id, and rolled back.\<close>

lemma purchase_sold_item_rolled_back:
  "purchase [] 2 (IdArray [1, 2]) shop =
     Alive (Some \<lparr>status_code = 400,
                  body = ErrorDetails ''Purchase failed'' [NotFoundOrUnavailable 2]\<rparr>, shop)"
  by (simp add: purchase_defs stmt_defs shop_defs drain_numeral Let_def)


subsection \<open>Deleting a product\<close>

lemma no_product_history: "no_product productId t \<Longrightarrow> not_in_history userId productId t"
  by (auto simp: no_product_def not_in_history_def get_purchases_def list_all_iff)

section \<open>Malformed requests\<close>

text \<open>
  Claim C8, as the code has it. A \<^verbatim>\<open>POST /api/purchase\<close> whose \<^verbatim>\<open>product_ids\<close> is
  missing, not an array or empty, and a \<^verbatim>\<open>POST /api/buy-now\<close> whose \<^verbatim>\<open>product_id\<close> or
  \<^verbatim>\<open>payment_method\<close> is missing (or falsy: 0, the empty string), is answered with status
  400 and a body that has the \<^verbatim>\<open>error\<close> key only; the database is left as it was and the
  process goes on.
\<close>

theorem malformed_input_rejected:
  "purchase sched userId Missing d =
     Alive (Some \<lparr>status_code = 400, body = Error ''Product IDs array is required''\<rparr>, d) \<and>
   purchase sched userId NotArray d =
     Alive (Some \<lparr>status_code = 400, body = Error ''Product IDs array is required''\<rparr>, d) \<and>
   purchase sched userId (IdArray []) d =
     Alive (Some \<lparr>status_code = 400, body = Error ''Product IDs array is required''\<rparr>, d) \<and>
   buy_now userId None payment_method d =
     Alive (\<lparr>status_code = 400, body = Error ''Product ID is required''\<rparr>, d) \<and>
   buy_now userId (Some 0) payment_method d =
     Alive (\<lparr>status_code = 400, body = Error ''Product ID is required''\<rparr>, d) \<and>
   buy_now userId (Some (Suc n)) None d =
     Alive (\<lparr>status_code = 400, body = Error ''Payment method is required''\<rparr>, d) \<and>
   buy_now userId (Some (Suc n)) (Some []) d =
     Alive (\<lparr>status_code = 400, body = Error ''Payment method is required''\<rparr>, d)"
  by (simp add: purchase_def buy_now_def buy_now_select_def falsy_id_def falsy_str_def)

text \<open>The validation failure of \<^verbatim>\<open>POST /api/purchase\<close> carries no \<^verbatim>\<open>details\<close>, against
  the wording of claim C8.\<close>

theorem purchase_validation_body_counterexample:
  "purchase [] 2 Missing shop =
     Alive (Some \<lparr>status_code = 400, body = Error ''Product IDs array is required''\<rparr>, shop) \<and>
   \<not> has_details (Error ''Product IDs array is required'')"
  by (simp add: purchase_def)

section \<open>Buying a sold product\<close>

text \<open>
  Claim C7, as the code has it. For every product whose status is sold, a buy-now with a
  product id and a payment method is answered with status 404 and the error
  \<^verbatim>\<open>Product not found or unavailable\<close>, and the database is left as it was.
\<close>

theorem buy_now_sold_not_found:
  assumes "is_sold productId (cur d)" and "productId \<noteq> 0" and "payment_method \<noteq> []"
  shows "buy_now userId (Some productId) (Some payment_method) d =
           Alive (\<lparr>status_code = 404, body = Error ''Product not found or unavailable''\<rparr>, d)"
  using assms by (rule buy_now_on_sold)

theorem buy_now_sold_not_found_witness:
  "is_sold 2 (cur shop) \<and>
   buy_now 3 (Some 2) (Some ''paypal'') shop =
     Alive (\<lparr>status_code = 404, body = Error ''Product not found or unavailable''\<rparr>, shop)"
proof -
  have s: "is_sold 2 (cur shop)" by (simp add: is_sold_def shop_defs)
  show ?thesis using s buy_now_sold_not_found [OF s, of "''paypal''" 3] by simp
qed

text \<open>The status of that answer is 404, not the 400 of claim C7.\<close>

theorem buy_now_sold_status_counterexample:
  "(case buy_now 3 (Some 2) (Some ''paypal'') shop of
      Exited \<Rightarrow> False
    | Alive a \<Rightarrow> status_code (fst a) = 404 \<and> status_code (fst a) \<noteq> 400)"
  by (simp add: buy_now_defs stmt_defs shop_defs)

section \<open>A successful buy-now\<close>

text \<open>
  Claim C5. With no transaction open on the connection, a buy-now of an available product
  that the buyer does not own is answered 200 with the id of the new purchase row, the
  product row as it was read, the payment method and the product's price as total amount.
  Afterwards the rows of the products table with that id, of which the row read is one,
  have status sold and every other row is as it was; the ledger has one more row, whose
  seller is the product's owner and whose price is the product's price; the other tables
  are as they were and the transaction is committed.
\<close>

theorem buy_now_success:
  assumes "saved d = None" and "select_available productId (cur d) = Some product"
    and "p_user_id product \<noteq> userId" and "productId \<noteq> 0" and "payment_method \<noteq> []"
  shows "product \<in> set (products (cur d)) \<and> p_id product = productId \<and>
         buy_now userId (Some productId) (Some payment_method) d =
           Alive (\<lparr>status_code = 200,
                   body = BoughtNow ''Purchase successful! Your item has been booked.''
                            (Suc (purchases_seq (cur d))) product payment_method
                            (p_price product)\<rparr>,
                  \<lparr>cur = (cur d)
                     \<lparr>products := map (\<lambda>p. if p_id p = productId then p\<lparr>p_status := Sold\<rparr> else p)
                                     (products (cur d)),
                      purchases := purchases (cur d) @
                        [\<lparr>pu_id = Suc (purchases_seq (cur d)), pu_buyer_id = userId,
                          pu_product_id = productId, pu_seller_id = p_user_id product,
                          pu_price = p_price product\<rparr>],
                      purchases_seq := Suc (purchases_seq (cur d))\<rparr>,
                   saved = None\<rparr>)"
  using assms select_available_row [OF assms(2)]
  by (simp add: buy_now_valid(2) buy_now_sell_result bought_def)

theorem buy_now_success_witness:
  "saved shop = None \<and>
   select_available 1 (cur shop) =
     Some \<lparr>p_id = 1, p_title = ''lamp'', p_price = 10, p_user_id = 1, p_status = Available\<rparr> \<and>
   (case buy_now 2 (Some 1) (Some ''paypal'') shop of
      Exited \<Rightarrow> False
    | Alive a \<Rightarrow>
        fst a = \<lparr>status_code = 200,
                 body = BoughtNow ''Purchase successful! Your item has been booked.'' 3
                          \<lparr>p_id = 1, p_title = ''lamp'', p_price = 10, p_user_id = 1,
                           p_status = Available\<rparr> ''paypal'' 10\<rparr> \<and>
        map (\<lambda>p. (p_id p, p_status p)) (products (cur (snd a))) =
          [(1, Sold), (2, Sold), (3, Available), (4, Sold)] \<and>
        purchases (cur (snd a)) = purchases (cur shop) @
          [\<lparr>pu_id = 3, pu_buyer_id = 2, pu_product_id = 1, pu_seller_id = 1, pu_price = 10\<rparr>])"
proof -
  have n: "saved shop = None" by (simp add: shop_defs)
  have s: "select_available 1 (cur shop) =
      Some \<lparr>p_id = 1, p_title = ''lamp'', p_price = 10, p_user_id = 1, p_status = Available\<rparr>"
    by (simp add: select_available_def shop_defs)
  show ?thesis
    using n s buy_now_success [OF n s, of 2 "''paypal''"]
    by (simp add: shop_defs)
qed

section \<open>Buying one's own product\<close>

text \<open>
  Claim C4, as the code has it. For every product owned by the buyer: a buy-now (product id
  and payment method present) is answered with status 400 and
  \<^verbatim>\<open>Cannot purchase your own product\<close> when the product is available, with status 404
  and \<^verbatim>\<open>Product not found or unavailable\<close> when it is not, and it changes nothing; a
  purchase of the batch made of that one product issues no statement after its
  \<^verbatim>\<open>BEGIN\<close>, so it leaves every table as it was and no ledger row is created.
\<close>

theorem own_product_not_purchased:
  assumes "owned_by productId userId (cur d)" and "productId \<noteq> 0" and "payment_method \<noteq> []"
  shows "buy_now userId (Some productId) (Some payment_method) d =
           Alive (if select_available productId (cur d) = None
                  then \<lparr>status_code = 404, body = Error ''Product not found or unavailable''\<rparr>
                  else \<lparr>status_code = 400, body = Error ''Cannot purchase your own product''\<rparr>,
                  d) \<and>
         purchase sched userId (IdArray [productId]) d =
           (case saved d of None \<Rightarrow> Alive (None, d\<lparr>saved := Some (cur d)\<rparr>)
            | Some t \<Rightarrow> Exited)"
proof -
  have v: "list_all (\<lambda>productId. case select_available productId (cur d) of None \<Rightarrow> True
                          | Some product \<Rightarrow> p_user_id product = userId) [productId]"
    using assms(1) by (simp add: select_available_owner split: option.split)
  have b: "buy_now userId (Some productId) (Some payment_method) d =
           Alive (if select_available productId (cur d) = None
                  then \<lparr>status_code = 404, body = Error ''Product not found or unavailable''\<rparr>
                  else \<lparr>status_code = 400, body = Error ''Cannot purchase your own product''\<rparr>,
                  d)"
    using assms
    by (auto simp: buy_now_def buy_now_select_def falsy_id_def falsy_str_def
        select_available_owner split: option.split)
  show ?thesis
    using b purchase_no_valid_item [OF _ v, of sched] by simp
qed

theorem own_product_not_purchased_witness:
  "owned_by 3 2 (cur shop) \<and>
   buy_now 2 (Some 3) (Some ''paypal'') shop =
     Alive (\<lparr>status_code = 400, body = Error ''Cannot purchase your own product''\<rparr>, shop) \<and>
   purchase [] 2 (IdArray [3]) shop = Alive (None, shop\<lparr>saved := Some (cur shop)\<rparr>)"
proof -
  have o: "owned_by 3 2 (cur shop)" by (simp add: owned_by_def shop_defs)
  have a: "select_available 3 (cur shop) \<noteq> None" by (simp add: select_available_def shop_defs)
  have n: "saved shop = None" by (simp add: shop_defs)
  show ?thesis
    using o a n own_product_not_purchased [OF o, of "''paypal''" "[]"]
    by simp
qed

text \<open>Against the wording of claim C4: on a sold product of the buyer's own, buy-now
  answers 404 \<^verbatim>\<open>Product not found or unavailable\<close>; and the purchase of an own product
  sends no answer.\<close>

theorem own_product_error_counterexample:
  "buy_now 2 (Some 4) (Some ''paypal'') shop =
     Alive (\<lparr>status_code = 404, body = Error ''Product not found or unavailable''\<rparr>, shop) \<and>
   purchase [] 2 (IdArray [3]) shop =
     Alive (None, \<lparr>cur = shop_tables, saved = Some shop_tables\<rparr>)"
  by (simp add: buy_now_defs purchase_defs stmt_defs shop_defs drain_empty)

section \<open>Batches in which no product passes validation\<close>

text \<open>
  Claim C1 asks for a 400 answer with the failed ids whenever a product of the batch fails
  validation. The completion check of the handler is in the callback of the INSERT, which
  a product that fails validation never reaches: for the batch made of one sold product
  the handler sends no answer and leaves the transaction it began open, whatever the
  schedule.
\<close>

theorem purchase_unavailable_only_unanswered:
  "purchase sched 3 (IdArray [2]) shop =
     Alive (None, \<lparr>cur = shop_tables, saved = Some shop_tables\<rparr>)"
  by (simp add: purchase_defs stmt_defs shop_defs drain_empty)

section \<open>Batches that list a product twice\<close>

text \<open>
  Claim C9 asks for at most one ledger row per product. Both SELECTs of the batch
  \<open>[1, 1]\<close> read the lamp as available before either UPDATE runs: the handler inserts two
  ledger rows for it, commits, and answers that two products were purchased.
\<close>

theorem purchase_duplicate_id_sold_twice:
  "(case purchase [] 2 (IdArray [1, 1]) shop of
      Exited \<Rightarrow> False
    | Alive a \<Rightarrow>
        fst a = Some \<lparr>status_code = 200,
                       body = Purchased ''Purchase completed successfully'' 2\<rparr> \<and>
        map pu_id (purchases_of 1 (cur (snd a))) = [3, 4] \<and>
        saved (snd a) = None)"
  by (simp add: purchase_defs stmt_defs shop_defs drain_numeral purchases_of_def Let_def)

section \<open>Ledger rows and sold products\<close>

text \<open>
  Claim C3 asks that a product is sold exactly when the ledger has a row for it, after any
  request. In the batch of the available lamp and the sold desk, the callback of the
  lamp's INSERT issues the UPDATE, the DELETE and the ROLLBACK without waiting for any of
  them. When the driver runs the ROLLBACK first, the ledger row is rolled back and the
  UPDATE then runs outside the transaction: the request is answered 400, the lamp is sold,
  and no ledger row references it.
\<close>

theorem purchase_rollback_overtakes_update:
  "(case purchase [0, 2] 2 (IdArray [1, 2]) shop of
      Exited \<Rightarrow> False
    | Alive a \<Rightarrow>
        fst a = Some \<lparr>status_code = 400,
                       body = ErrorDetails ''Purchase failed'' [NotFoundOrUnavailable 2]\<rparr> \<and>
        map (\<lambda>p. (p_id p, p_status p)) (products (cur (snd a))) =
          [(1, Sold), (2, Sold), (3, Available), (4, Sold)] \<and>
        purchases_of 1 (cur (snd a)) = [] \<and>
        \<not> ledger_matches (cur (snd a)))"
  by (simp add: purchase_defs stmt_defs shop_defs drain_numeral purchases_of_def
      ledger_matches_def Let_def)

section \<open>The check and the update of buy-now\<close>




section \<open>The cart after a sale\<close>

text \<open>
  Claim C6, as the code has it. After a purchase that was answered 200, whatever the
  schedule: the cart table is the one before without the buyer's rows for the products of
  the batch, so the rows of other users are all kept; the products table is the one before
  with the products of the batch marked sold, each of which has a row; and none of them is
  in the cart listing of any user, which joins the cart to the available products only.
  After a buy-now that was answered 200 the product, which has a row, is marked sold, the
  cart rows of other users are kept, and the product is in no cart listing.
\<close>

theorem sold_product_not_in_cart_listing:
  "(purchase sched userId (IdArray ids) d = Alive (Some r, d') \<and> status_code r = 200 \<longrightarrow>
      cart (cur d') = without_rows userId (set ids) (cart (cur d)) \<and>
      products (cur d') = mark_sold (set ids) (products (cur d)) \<and>
      (\<forall>productId \<in> set ids.
         select_available productId (cur d) \<noteq> None \<and> not_listed anyUser productId (cur d'))) \<and>
   (buy_now userId (Some productId) payment_method d = Alive (r', d'') \<and> status_code r' = 200 \<longrightarrow>
      products (cur d'') = mark_sold {productId} (products (cur d)) \<and>
      select_available productId (cur d) \<noteq> None \<and>
      rows_of_others userId (cart (cur d'')) = rows_of_others userId (cart (cur d)) \<and>
      not_listed anyUser productId (cur d''))"
proof (intro conjI impI; elim conjE)
  assume a: "purchase sched userId (IdArray ids) d = Alive (Some r, d')" "status_code r = 200"
  note p = purchase_answered_200 [OF a]
  show "cart (cur d') = without_rows userId (set ids) (cart (cur d))" by (rule p(2))
  show "products (cur d') = mark_sold (set ids) (products (cur d))" by (rule p(3))
  show "\<forall>productId \<in> set ids.
         select_available productId (cur d) \<noteq> None \<and> not_listed anyUser productId (cur d')"
    using p(4) sold_not_listed by blast
next
  assume a: "buy_now userId (Some productId) payment_method d = Alive (r', d'')"
    "status_code r' = 200"
  note b = buy_now_answered_200 [OF a]
  show "products (cur d'') = mark_sold {productId} (products (cur d))" by (rule b(2))
  show "select_available productId (cur d) \<noteq> None" by (rule b(1))
  show "rows_of_others userId (cart (cur d'')) = rows_of_others userId (cart (cur d))"
    by (simp add: b(3))
  show "not_listed anyUser productId (cur d'')"
    using is_sold_mark_sold [OF b(2)] by (rule sold_not_listed)
qed

theorem sold_product_not_in_cart_listing_witness:
  "purchase [0, 2] 2 (IdArray [1]) shop = Alive (Some purchased_one, shop_after_purchase) \<and>
   status_code purchased_one = 200 \<and>
   cart (cur shop_after_purchase) = [\<lparr>c_user_id = 3, c_product_id = 1\<rparr>] \<and>
   map (\<lambda>p. (p_id p, p_status p)) (products (cur shop_after_purchase)) =
     [(1, Sold), (2, Sold), (3, Available), (4, Sold)] \<and>
   not_listed 3 1 (cur shop_after_purchase) \<and>
   buy_now 2 (Some 1) (Some ''paypal'') shop =
     Alive (bought 3 (hd (products shop_tables)) ''paypal'', shop_after_buy_now) \<and>
   rows_of_others 2 (cart (cur shop_after_buy_now)) = [\<lparr>c_user_id = 3, c_product_id = 1\<rparr>] \<and>
   not_listed 3 1 (cur shop_after_buy_now)"
proof -
  have p: "purchase [0, 2] 2 (IdArray [1]) shop = Alive (Some purchased_one, shop_after_purchase)"
    by (simp add: purchase_defs stmt_defs shop_defs drain_numeral Let_def after_defs)
  have b: "buy_now 2 (Some 1) (Some ''paypal'') shop =
     Alive (bought 3 (hd (products shop_tables)) ''paypal'', shop_after_buy_now)"
    by (simp add: buy_now_defs stmt_defs shop_defs Let_def after_defs)
  have s: "status_code purchased_one = 200"
    "status_code (bought 3 (hd (products shop_tables)) ''paypal'') = 200"
    by (simp_all add: purchased_one_def bought_def)
  have c: "cart (cur shop) = [\<lparr>c_user_id = 2, c_product_id = 1\<rparr>, \<lparr>c_user_id = 3, c_product_id = 1\<rparr>]"
    "map (\<lambda>p. (p_id p, p_status p)) (mark_sold {1} (products (cur shop))) =
       [(1, Sold), (2, Sold), (3, Available), (4, Sold)]"
    by (simp_all add: shop_defs mark_sold_def)
  show ?thesis
    using p b s c
      sold_product_not_in_cart_listing [of "[0, 2]" 2 "[1]" shop purchased_one shop_after_purchase
        3 1 "Some ''paypal''" "bought 3 (hd (products shop_tables)) ''paypal''" shop_after_buy_now]
    by (simp add: without_rows_def rows_of_others_def)
qed

text \<open>After Bob's purchase of the lamp, Carol's cart row still references it; after his
  buy-now of the lamp, his own cart row and Carol's both do. This is against claim C6.\<close>

theorem sold_product_in_cart_counterexample:
  "purchase [] 2 (IdArray [1]) shop = Alive (Some purchased_one, shop_after_purchase) \<and>
   is_sold 1 (cur shop_after_purchase) \<and>
   cart (cur shop_after_purchase) = [\<lparr>c_user_id = 3, c_product_id = 1\<rparr>] \<and>
   buy_now 2 (Some 1) (Some ''paypal'') shop =
     Alive (bought 3 (hd (products shop_tables)) ''paypal'', shop_after_buy_now) \<and>
   is_sold 1 (cur shop_after_buy_now) \<and>
   cart (cur shop_after_buy_now) =
     [\<lparr>c_user_id = 2, c_product_id = 1\<rparr>, \<lparr>c_user_id = 3, c_product_id = 1\<rparr>]"
  by (simp add: purchase_defs buy_now_defs stmt_defs shop_defs drain_numeral Let_def
      after_defs is_sold_def)

section \<open>Deleting a product that has purchases\<close>

text \<open>
  Claim C10. When the requester owns the product, \<^verbatim>\<open>DELETE /api/products/:id\<close> is
  answered 200 and removes the product row, whatever its status; the ledger is left as it
  was; and since the purchase history joins the ledger to the products, no row of anyone's
  purchase history is about the deleted product any more.
\<close>

theorem delete_product_keeps_purchases:
  assumes "primary_key (cur d)" and "product \<in> set (products (cur d))"
    and "p_id product = productId" and "p_user_id product = userId"
  shows "fst (delete_product userId productId d) =
           \<lparr>status_code = 200, body = Message ''Product deleted successfully''\<rparr> \<and>
         products (cur (snd (delete_product userId productId d))) =
           filter (\<lambda>p. p_id p \<noteq> productId) (products (cur d)) \<and>
         purchases (cur (snd (delete_product userId productId d))) = purchases (cur d) \<and>
         no_product productId (cur (snd (delete_product userId productId d))) \<and>
         not_in_history anyUser productId (cur (snd (delete_product userId productId d)))"
proof -
  have u: "p_id p = productId \<Longrightarrow> p_user_id p = userId" if "p \<in> set (products (cur d))" for p
    using that assms by (auto simp: primary_key_def distinct_map inj_on_def)
  then have f: "filter (\<lambda>p. \<not> (p_id p = productId \<and> p_user_id p = userId)) (products (cur d)) =
             filter (\<lambda>p. p_id p \<noteq> productId) (products (cur d))"
    by (intro filter_cong) auto
  have n: "filter (\<lambda>p. p_id p = productId \<and> p_user_id p = userId) (products (cur d)) \<noteq> []"
    using assms by (auto simp: filter_empty_conv)
  have 1: "fst (delete_product userId productId d) =
           \<lparr>status_code = 200, body = Message ''Product deleted successfully''\<rparr>"
    using n by (simp add: delete_product_def delete_product_row_def Let_def)
  have 2: "cur (snd (delete_product userId productId d)) =
           (cur d)\<lparr>products := filter (\<lambda>p. p_id p \<noteq> productId) (products (cur d))\<rparr>"
    using f by (simp add: delete_product_def delete_product_row_def Let_def)
  have 3: "no_product productId (cur (snd (delete_product userId productId d)))"
    by (simp add: 2 no_product_def list_all_iff)
  show ?thesis
    using 1 3 no_product_history [OF 3] by (simp add: 2)
qed

theorem delete_product_keeps_purchases_witness:
  "primary_key (cur shop) \<and>
   map (\<lambda>x. pu_product_id (fst x)) (get_purchases 3 (cur shop)) = [2, 4] \<and>
   fst (delete_product 1 2 shop) =
     \<lparr>status_code = 200, body = Message ''Product deleted successfully''\<rparr> \<and>
   purchases (cur (snd (delete_product 1 2 shop))) = purchases (cur shop) \<and>
   not_in_history 3 2 (cur (snd (delete_product 1 2 shop)))"
proof -
  have k: "primary_key (cur shop)" by (simp add: primary_key_def shop_defs)
  have m: "\<lparr>p_id = 2, p_title = ''desk'', p_price = 25, p_user_id = 1, p_status = Sold\<rparr>
             \<in> set (products (cur shop))"
    by (simp add: shop_defs)
  have h: "map (\<lambda>x. pu_product_id (fst x)) (get_purchases 3 (cur shop)) = [2, 4]"
    by (simp add: get_purchases_def shop_defs)
  show ?thesis
    using k h delete_product_keeps_purchases [OF k m, of 2 1 3] by simp
qed

end
